theory Spec2Isabelle
  imports Complex_Main "HOL-Library.Multiset" "HOL-Library.Log_Nat"
begin

section \<open>Data model (app/models.py)\<close>

text \<open>
  The two tables of the menu database.  A row has the columns of its model class; a
  column that the model declares \<open>nullable=False\<close> (or that is the primary key) holds a
  plain value, every other column holds an optional value, \<open>None\<close> being SQL NULL.
  Python integers are \<open>int\<close>.  A Python float is modelled by the rational number it
  denotes: the routers only compare floats, and on finite floats the comparison is the
  comparison of the rationals.  A \<open>datetime\<close> is a point on an integer time line.
\<close>

type_synonym datetime = int

record Category =
  cat_id :: int
  cat_name :: string
  cat_description :: "string option"

record Item =
  item_id :: int
  item_category_id :: int
  item_name :: string
  item_description :: "string option"
  item_price :: rat
  item_rating :: "rat option"
  item_is_active :: "bool option"
  item_created_at :: datetime
  item_updated_at :: datetime

text \<open>
  The committed state of the database: both tables, each in the order in which the rows
  were inserted, and the next value of each table's identity column.
\<close>

record database =
  categories :: "Category list"
  items :: "Item list"
  next_category_id :: int
  next_item_id :: int

definition init_db :: database where
  "init_db = \<lparr>categories = [], items = [], next_category_id = 1, next_item_id = 1\<rparr>"

text \<open>The relationship \<open>Category.items\<close>: the items whose foreign key is the category.\<close>

definition Category_items :: "Category \<Rightarrow> database \<Rightarrow> Item list" where
  "Category_items c db = filter (\<lambda>i. item_category_id i = cat_id c) (items db)"

section \<open>Errors\<close>

text \<open>
  Every \<open>raise HTTPException(status_code, detail)\<close> of the routers is a value: the status
  and what the detail message reports.  \<open>IntegrityError\<close> is what \<open>db.commit()\<close> raises
  when a row breaks a constraint declared in the models; no router catches it.
\<close>

datatype detail =
    Category_not_found int
  | Category_name_exists string
  | Category_has_items nat
  | Item_not_found int

datatype error = HTTPException nat detail | IntegrityError

abbreviation HTTP_400_BAD_REQUEST :: nat where "HTTP_400_BAD_REQUEST \<equiv> 400"
abbreviation HTTP_404_NOT_FOUND :: nat where "HTTP_404_NOT_FOUND \<equiv> 404"

section \<open>Request payloads (app/schemas.py)\<close>

text \<open>
  A field of an update payload is either absent from the request body (\<open>Unset\<close>) or
  present with a value; for an \<open>Optional\<close> field the value may be \<open>None\<close> (JSON null).
  \<open>model_dump(exclude_unset=True)\<close> keeps exactly the fields that are present.
\<close>

datatype 'a field = Unset | Given 'a

record CategoryCreate =
  cc_name :: string
  cc_description :: "string option"

record CategoryUpdate =
  cu_name :: "string option field"
  cu_description :: "string option field"

record ItemCreate =
  ic_name :: string
  ic_description :: "string option"
  ic_price :: rat
  ic_rating :: "rat option"
  ic_is_active :: bool
  ic_category_id :: int

record ItemUpdate =
  iu_category_id :: "int option field"
  iu_name :: "string option field"
  iu_description :: "string option field"
  iu_price :: "rat option field"
  iu_rating :: "rat option field"
  iu_is_active :: "bool option field"

text \<open>Reading an attribute of an update payload: an absent field reads as its default \<open>None\<close>.\<close>

fun attr :: "'a option field \<Rightarrow> 'a option" where
  "attr Unset = None"
| "attr (Given v) = v"

text \<open>One step of the loop \<open>for field, value in update_data.items(): setattr(obj, field, value)\<close>.\<close>

fun setattr :: "'a field \<Rightarrow> 'a \<Rightarrow> 'a" where
  "setattr Unset old = old"
| "setattr (Given v) old = v"

text \<open>The \<open>Field(...)\<close> constraints of \<open>CategoryUpdate\<close>; \<open>None\<close> passes an \<open>Optional\<close> field.\<close>

definition CategoryUpdate_valid :: "CategoryUpdate \<Rightarrow> bool" where
  "CategoryUpdate_valid u \<longleftrightarrow>
     (case attr (cu_name u) of None \<Rightarrow> True | Some n \<Rightarrow> 3 \<le> length n \<and> length n \<le> 80) \<and>
     (case attr (cu_description u) of None \<Rightarrow> True | Some d \<Rightarrow> length d \<le> 400)"

text \<open>The \<open>Field(...)\<close> constraints of \<open>ItemUpdate\<close>, which declares no validator function.\<close>

definition ItemUpdate_valid :: "ItemUpdate \<Rightarrow> bool" where
  "ItemUpdate_valid u \<longleftrightarrow>
     (case attr (iu_category_id u) of None \<Rightarrow> True | Some c \<Rightarrow> 0 < c) \<and>
     (case attr (iu_name u) of None \<Rightarrow> True | Some n \<Rightarrow> 1 \<le> length n \<and> length n \<le> 100) \<and>
     (case attr (iu_description u) of None \<Rightarrow> True | Some d \<Rightarrow> length d \<le> 500) \<and>
     (case attr (iu_price u) of None \<Rightarrow> True | Some p \<Rightarrow> 0 < p) \<and>
     (case attr (iu_rating u) of None \<Rightarrow> True | Some r \<Rightarrow> 0 \<le> r \<and> r \<le> 5)"

section \<open>Flushing category rows\<close>

text \<open>
  \<open>db.add(obj); db.commit()\<close> inserts a row.  The insert fails with \<open>IntegrityError\<close> when
  the name is NULL (\<open>nullable=False\<close>) or already in the table (\<open>unique=True\<close>);
  otherwise the identity column numbers the row and the row goes to the end of the table.
  A failed commit leaves the committed state as it was.
\<close>

definition insert_category ::
  "string option \<Rightarrow> string option \<Rightarrow> database \<Rightarrow> (error + Category) \<times> database" where
  "insert_category name description db =
     (case name of
        None \<Rightarrow> (Inl IntegrityError, db)
      | Some n \<Rightarrow>
          if n \<in> set (map cat_name (categories db)) then (Inl IntegrityError, db)
          else
            let row = \<lparr>cat_id = next_category_id db, cat_name = n,
                       cat_description = description\<rparr>
            in (Inr row, db\<lparr>categories := categories db @ [row],
                            next_category_id := next_category_id db + 1\<rparr>))"

text \<open>
  \<open>db.commit()\<close> after attributes of a loaded category were set: the row with the
  object's primary key is rewritten.  The unique index is checked when the name changes.
  A category has no timestamp, so rewriting a row with the values it has is not told
  apart from emitting no UPDATE.
\<close>

definition flush_category ::
  "Category \<Rightarrow> string option \<Rightarrow> string option \<Rightarrow> database \<Rightarrow> (error + Category) \<times> database" where
  "flush_category old name description db =
     (case name of
        None \<Rightarrow> (Inl IntegrityError, db)
      | Some n \<Rightarrow>
          if n \<noteq> cat_name old \<and>
             (\<exists>c \<in> set (categories db). cat_id c \<noteq> cat_id old \<and> cat_name c = n)
          then (Inl IntegrityError, db)
          else
            let row = old\<lparr>cat_name := n, cat_description := description\<rparr>
            in (Inr row,
                db\<lparr>categories :=
                      map (\<lambda>c. if cat_id c = cat_id old then row else c) (categories db)\<rparr>))"

section \<open>Category endpoints (app/routers/categories.py)\<close>

definition create_category ::
  "CategoryCreate \<Rightarrow> database \<Rightarrow> (error + Category) \<times> database" where
  "create_category category db =
     (case find (\<lambda>c. cat_name c = cc_name category) (categories db) of
        Some existing \<Rightarrow>
          (Inl (HTTPException HTTP_400_BAD_REQUEST (Category_name_exists (cc_name category))), db)
      | None \<Rightarrow> insert_category (Some (cc_name category)) (cc_description category) db)"

text \<open>
  \<open>db.query(models.Category).offset(skip).limit(limit).all()\<close> has no \<open>order_by\<close>, so
  the order of the rows is the database engine's and not the program's.  The argument
  \<open>scan\<close> is that order: it maps the table to the sequence in which the engine returns
  its rows.  \<open>skip\<close> and \<open>limit\<close> are taken non-negative, as the specification does.
\<close>

definition list_categories ::
  "(Category list \<Rightarrow> Category list) \<Rightarrow> nat \<Rightarrow> nat \<Rightarrow> database \<Rightarrow> Category list" where
  "list_categories scan skip limit db = take limit (drop skip (scan (categories db)))"

definition get_category :: "int \<Rightarrow> database \<Rightarrow> error + Category \<times> Item list" where
  "get_category category_id db =
     (case find (\<lambda>c. cat_id c = category_id) (categories db) of
        None \<Rightarrow> Inl (HTTPException HTTP_404_NOT_FOUND (Category_not_found category_id))
      | Some category \<Rightarrow> Inr (category, Category_items category db))"

text \<open>
  The block under \<open># Update fields\<close>: the fields present in the payload are set on
  the loaded object, then the session is committed.
\<close>

definition apply_category_update ::
  "Category \<Rightarrow> CategoryUpdate \<Rightarrow> database \<Rightarrow> (error + Category) \<times> database" where
  "apply_category_update db_category category_update db =
     flush_category db_category
       (setattr (cu_name category_update) (Some (cat_name db_category)))
       (setattr (cu_description category_update) (cat_description db_category))
       db"

text \<open>
  \<open>if category_update.name:\<close> is Python truthiness: the check runs when the name is
  present, not \<open>None\<close> and not the empty string.
\<close>

definition update_category ::
  "int \<Rightarrow> CategoryUpdate \<Rightarrow> database \<Rightarrow> (error + Category) \<times> database" where
  "update_category category_id category_update db =
     (case find (\<lambda>c. cat_id c = category_id) (categories db) of
        None \<Rightarrow> (Inl (HTTPException HTTP_404_NOT_FOUND (Category_not_found category_id)), db)
      | Some db_category \<Rightarrow>
          (case attr (cu_name category_update) of
             None \<Rightarrow> apply_category_update db_category category_update db
           | Some n \<Rightarrow>
               if n = [] then apply_category_update db_category category_update db
               else
                 (case find (\<lambda>c. cat_name c = n \<and> cat_id c \<noteq> category_id) (categories db) of
                    Some existing \<Rightarrow>
                      (Inl (HTTPException HTTP_400_BAD_REQUEST (Category_name_exists n)), db)
                  | None \<Rightarrow> apply_category_update db_category category_update db)))"

text \<open>
  \<open>db.delete(db_category)\<close> removes the row and, by the relationship's
  \<open>cascade="all, delete-orphan"\<close>, the items of the category.
\<close>

definition delete_category :: "int \<Rightarrow> database \<Rightarrow> (error + unit) \<times> database" where
  "delete_category category_id db =
     (case find (\<lambda>c. cat_id c = category_id) (categories db) of
        None \<Rightarrow> (Inl (HTTPException HTTP_404_NOT_FOUND (Category_not_found category_id)), db)
      | Some db_category \<Rightarrow>
          if Category_items db_category db \<noteq> [] then
            (Inl (HTTPException HTTP_400_BAD_REQUEST
                    (Category_has_items (length (Category_items db_category db)))), db)
          else
            (Inr (),
             db\<lparr>categories := filter (\<lambda>c. cat_id c \<noteq> cat_id db_category) (categories db),
                items := filter (\<lambda>i. item_category_id i \<noteq> cat_id db_category) (items db)\<rparr>))"

section \<open>Flushing item rows\<close>

text \<open>
  Inserting an item.  The foreign key must name a row of \<open>categories\<close>.  The ORM leaves
  a \<open>None\<close> attribute out of the INSERT, so a null rating gets the column default
  \<open>0.0\<close>; \<open>created_at\<close> and \<open>updated_at\<close> get the column default \<open>datetime.utcnow\<close>,
  here the argument \<open>now\<close>.
\<close>

definition insert_item :: "ItemCreate \<Rightarrow> datetime \<Rightarrow> database \<Rightarrow> (error + Item) \<times> database" where
  "insert_item item now db =
     (if ic_category_id item \<notin> set (map cat_id (categories db)) then (Inl IntegrityError, db)
      else
        let row = \<lparr>item_id = next_item_id db,
                   item_category_id = ic_category_id item,
                   item_name = ic_name item,
                   item_description = ic_description item,
                   item_price = ic_price item,
                   item_rating = (case ic_rating item of None \<Rightarrow> Some 0 | Some r \<Rightarrow> Some r),
                   item_is_active = Some (ic_is_active item),
                   item_created_at = now,
                   item_updated_at = now\<rparr>
        in (Inr row, db\<lparr>items := items db @ [row], next_item_id := next_item_id db + 1\<rparr>))"

text \<open>
  The attributes of a loaded \<open>Item\<close> object that the routers assign; after \<open>setattr\<close>
  any of them may be \<open>None\<close>.
\<close>

record Item_attrs =
  a_category_id :: "int option"
  a_name :: "string option"
  a_description :: "string option"
  a_price :: "rat option"
  a_rating :: "rat option"
  a_is_active :: "bool option"

definition attrs_of :: "Item \<Rightarrow> Item_attrs" where
  "attrs_of i =
     \<lparr>a_category_id = Some (item_category_id i), a_name = Some (item_name i),
      a_description = item_description i, a_price = Some (item_price i),
      a_rating = item_rating i, a_is_active = item_is_active i\<rparr>"

text \<open>
  \<open>db.commit()\<close> after attributes of a loaded item were set.  When no attribute differs
  from the loaded row the ORM emits no UPDATE.  Otherwise the row with the object's
  primary key is rewritten and \<open>onupdate=datetime.utcnow\<close> sets \<open>updated_at\<close>; the UPDATE
  fails when a \<open>nullable=False\<close> column would become NULL or a changed foreign key names
  no category.
\<close>

definition flush_item ::
  "Item \<Rightarrow> Item_attrs \<Rightarrow> datetime \<Rightarrow> database \<Rightarrow> (error + Item) \<times> database" where
  "flush_item old a now db =
     (if a = attrs_of old then (Inr old, db)
      else
        (case (a_category_id a, a_name a, a_price a) of
           (Some c, Some n, Some p) \<Rightarrow>
             if c \<noteq> item_category_id old \<and> c \<notin> set (map cat_id (categories db))
             then (Inl IntegrityError, db)
             else
               let row = old\<lparr>item_category_id := c, item_name := n,
                              item_description := a_description a, item_price := p,
                              item_rating := a_rating a, item_is_active := a_is_active a,
                              item_updated_at := now\<rparr>
               in (Inr row,
                   db\<lparr>items := map (\<lambda>i. if item_id i = item_id old then row else i) (items db)\<rparr>)
         | _ \<Rightarrow> (Inl IntegrityError, db)))"

section \<open>Item endpoints (app/routers/items.py)\<close>

definition create_item :: "ItemCreate \<Rightarrow> datetime \<Rightarrow> database \<Rightarrow> (error + Item) \<times> database" where
  "create_item item now db =
     (case find (\<lambda>c. cat_id c = ic_category_id item) (categories db) of
        None \<Rightarrow>
          (Inl (HTTPException HTTP_404_NOT_FOUND (Category_not_found (ic_category_id item))), db)
      | Some category \<Rightarrow> insert_item item now db)"


text \<open>
  The block under \<open># Update fields\<close> of \<open>update_item\<close>.
\<close>

definition apply_item_update ::
  "Item \<Rightarrow> ItemUpdate \<Rightarrow> datetime \<Rightarrow> database \<Rightarrow> (error + Item) \<times> database" where
  "apply_item_update db_item item_update now db =
     flush_item db_item
       \<lparr>a_category_id = setattr (iu_category_id item_update) (Some (item_category_id db_item)),
        a_name = setattr (iu_name item_update) (Some (item_name db_item)),
        a_description = setattr (iu_description item_update) (item_description db_item),
        a_price = setattr (iu_price item_update) (Some (item_price db_item)),
        a_rating = setattr (iu_rating item_update) (item_rating db_item),
        a_is_active = setattr (iu_is_active item_update) (item_is_active db_item)\<rparr>
       now db"

text \<open>
  \<open>if item_update.category_id:\<close> is Python truthiness: the category is looked up when
  the id is present, not \<open>None\<close> and not \<open>0\<close>.
\<close>

definition update_item ::
  "int \<Rightarrow> ItemUpdate \<Rightarrow> datetime \<Rightarrow> database \<Rightarrow> (error + Item) \<times> database" where
  "update_item iid item_update now db =
     (case find (\<lambda>i. item_id i = iid) (items db) of
        None \<Rightarrow> (Inl (HTTPException HTTP_404_NOT_FOUND (Item_not_found iid)), db)
      | Some db_item \<Rightarrow>
          (case attr (iu_category_id item_update) of
             None \<Rightarrow> apply_item_update db_item item_update now db
           | Some cid \<Rightarrow>
               if cid = 0 then apply_item_update db_item item_update now db
               else
                 (case find (\<lambda>c. cat_id c = cid) (categories db) of
                    None \<Rightarrow>
                      (Inl (HTTPException HTTP_404_NOT_FOUND (Category_not_found cid)), db)
                  | Some category \<Rightarrow> apply_item_update db_item item_update now db)))"

definition delete_item :: "int \<Rightarrow> database \<Rightarrow> (error + unit) \<times> database" where
  "delete_item iid db =
     (case find (\<lambda>i. item_id i = iid) (items db) of
        None \<Rightarrow> (Inl (HTTPException HTTP_404_NOT_FOUND (Item_not_found iid)), db)
      | Some db_item \<Rightarrow>
          (Inr (), db\<lparr>items := filter (\<lambda>i. item_id i \<noteq> item_id db_item) (items db)\<rparr>))"

text \<open>Python's \<open>not x\<close> on a nullable boolean: \<open>not None\<close> is \<open>True\<close>.\<close>

fun py_not :: "bool option \<Rightarrow> bool" where
  "py_not None = True"
| "py_not (Some b) = (\<not> b)"

definition toggle_item_active ::
  "int \<Rightarrow> datetime \<Rightarrow> database \<Rightarrow> (error + Item) \<times> database" where
  "toggle_item_active iid now db =
     (case find (\<lambda>i. item_id i = iid) (items db) of
        None \<Rightarrow> (Inl (HTTPException HTTP_404_NOT_FOUND (Item_not_found iid)), db)
      | Some db_item \<Rightarrow>
          flush_item db_item
            ((attrs_of db_item)\<lparr>a_is_active := Some (py_not (item_is_active db_item))\<rparr>)
            now db)"

section \<open>Reachable states\<close>

text \<open>
  The states of the database that requests can produce from the empty tables, with any
  payload of the payload type, valid or not.  The read-only endpoints leave the state
  alone.
\<close>

inductive reachable :: "database \<Rightarrow> bool" where
  r_init: "reachable init_db"
| r_create_category: "reachable db \<Longrightarrow> reachable (snd (create_category c db))"
| r_update_category: "reachable db \<Longrightarrow> reachable (snd (update_category cid cu db))"
| r_delete_category: "reachable db \<Longrightarrow> reachable (snd (delete_category cid db))"
| r_create_item: "reachable db \<Longrightarrow> reachable (snd (create_item it now db))"
| r_update_item: "reachable db \<Longrightarrow> reachable (snd (update_item iid iu now db))"
| r_delete_item: "reachable db \<Longrightarrow> reachable (snd (delete_item iid db))"
| r_toggle_item_active: "reachable db \<Longrightarrow> reachable (snd (toggle_item_active iid now db))"

section \<open>An invariant of the categories table\<close>

text \<open>
  Primary keys ascend along the table and lie below the identity counter, and no name
  occurs twice.
\<close>

definition db_inv :: "database \<Rightarrow> bool" where
  "db_inv db \<longleftrightarrow>
     sorted_wrt (<) (map cat_id (categories db)) \<and>
     (\<forall>c \<in> set (categories db). cat_id c < next_category_id db) \<and>
     distinct (map cat_name (categories db))"

section \<open>A small menu\<close>

text \<open>
  The state after creating the categories Drinks and Desserts and the item Cola, used to
  run the endpoints on concrete requests.
\<close>

definition Drinks :: CategoryCreate where
  "Drinks = \<lparr>cc_name = ''Drinks'', cc_description = None\<rparr>"

definition Desserts :: CategoryCreate where
  "Desserts = \<lparr>cc_name = ''Desserts'', cc_description = Some ''Sweet''\<rparr>"

definition Cola :: ItemCreate where
  "Cola = \<lparr>ic_name = ''Cola'', ic_description = None, ic_price = 3 / 2, ic_rating = None,
            ic_is_active = True, ic_category_id = 1\<rparr>"

definition menu_db :: database where
  "menu_db =
     \<lparr>categories =
        [\<lparr>cat_id = 1, cat_name = ''Drinks'', cat_description = None\<rparr>,
         \<lparr>cat_id = 2, cat_name = ''Desserts'', cat_description = Some ''Sweet''\<rparr>],
      items =
        [\<lparr>item_id = 1, item_category_id = 1, item_name = ''Cola'', item_description = None,
          item_price = 3 / 2, item_rating = Some 0, item_is_active = Some True,
          item_created_at = 10, item_updated_at = 10\<rparr>],
      next_category_id = 3, next_item_id = 2\<rparr>"

text \<open>A payload that moves an item to category 9, which the small menu does not have.\<close>

definition move_to_9 :: ItemUpdate where
  "move_to_9 = \<lparr>iu_category_id = Given (Some 9), iu_name = Given (Some ''Pepsi''),
                iu_description = Unset, iu_price = Unset, iu_rating = Unset,
                iu_is_active = Unset\<rparr>"

text \<open>
  An item named X with price 10, and update payloads that supply only a description,
  only a null description, and nothing.
\<close>

definition x_db :: database where
  "x_db =
     \<lparr>categories = [\<lparr>cat_id = 1, cat_name = ''Drinks'', cat_description = Some ''Cold''\<rparr>],
      items =
        [\<lparr>item_id = 1, item_category_id = 1, item_name = ''X'', item_description = Some ''old'',
          item_price = 10, item_rating = Some 4, item_is_active = Some True,
          item_created_at = 10, item_updated_at = 10\<rparr>],
      next_category_id = 2, next_item_id = 2\<rparr>"

definition only_description :: ItemUpdate where
  "only_description =
     \<lparr>iu_category_id = Unset, iu_name = Unset, iu_description = Given (Some ''new''),
      iu_price = Unset, iu_rating = Unset, iu_is_active = Unset\<rparr>"

definition null_description :: ItemUpdate where
  "null_description =
     \<lparr>iu_category_id = Unset, iu_name = Unset, iu_description = Given None,
      iu_price = Unset, iu_rating = Unset, iu_is_active = Unset\<rparr>"

definition no_fields :: ItemUpdate where
  "no_fields =
     \<lparr>iu_category_id = Unset, iu_name = Unset, iu_description = Unset,
      iu_price = Unset, iu_rating = Unset, iu_is_active = Unset\<rparr>"

section \<open>The filters of the listing, as the specification words them\<close>




text \<open>
  An update payload whose only field is \<open>is_active\<close> with the value null, and the small
  menu after that update of the item Cola.
\<close>

definition null_is_active :: ItemUpdate where
  "null_is_active =
     \<lparr>iu_category_id = Unset, iu_name = Unset, iu_description = Unset,
      iu_price = Unset, iu_rating = Unset, iu_is_active = Given None\<rparr>"

definition nulled_db :: database where
  "nulled_db = snd (update_item 1 null_is_active 20 menu_db)"

section \<open>The price of an item (app/schemas.py)\<close>

text \<open>
  A Python \<open>float\<close> is a binary64: a finite value, which is the rational it denotes, an
  infinity, or NaN.
\<close>

datatype pyfloat = Finite rat | PosInf | NegInf | NaN

text \<open>Rounding to the nearest integer, a tie going to the even one.\<close>

definition round_half_even :: "rat \<Rightarrow> int" where
  "round_half_even x =
     (let f = \<lfloor>x\<rfloor>; d = x - of_int f
      in if d < 1 / 2 then f else if 1 / 2 < d then f + 1 else if even f then f else f + 1)"

text \<open>The exponent \<open>e\<close> of a positive rational \<open>a\<close>: \<open>2 ^ e \<le> a < 2 ^ (e + 1)\<close>.\<close>

definition binade :: "rat \<Rightarrow> int" where
  "binade a =
     (if 1 \<le> a then int (floorlog 2 (nat \<lfloor>a\<rfloor>)) - 1
      else - int (floorlog 2 (nat (\<lceil>1 / a\<rceil> - 1))))"

text \<open>
  The binary64 nearest to a rational, a tie going to the even significand: the float
  that Python reads from a decimal literal.  The significand has 53 bits, the least
  exponent is -1022 (below it the spacing stays \<open>2 ^ -1074\<close>), and a result of \<open>2 ^ 1024\<close>
  or more is an infinity.
\<close>

definition to_binary64 :: "rat \<Rightarrow> pyfloat" where
  "to_binary64 q =
     (if q = 0 then Finite 0
      else
        let a = \<bar>q\<bar>;
            e = max (binade a) (- 1022);
            u = power_int 2 (e - 52);
            r = of_int (round_half_even (a / u)) * u
        in if 2 ^ 1024 \<le> r then (if 0 < q then PosInf else NegInf)
           else Finite (if 0 < q then r else - r))"

text \<open>
  \<open>round(v, 2)\<close>: the float nearest to the decimal with two fraction digits that is
  nearest to \<open>v\<close>, ties to even; an infinity and NaN round to themselves.
\<close>

fun py_round2 :: "pyfloat \<Rightarrow> pyfloat" where
  "py_round2 (Finite q) = to_binary64 (of_int (round_half_even (q * 100)) / 100)"
| "py_round2 v = v"

text \<open>Python's \<open>!=\<close> on floats: NaN differs from everything, itself included.\<close>

fun float_ne :: "pyfloat \<Rightarrow> pyfloat \<Rightarrow> bool" where
  "float_ne NaN w = True"
| "float_ne v NaN = True"
| "float_ne v w = (v \<noteq> w)"

text \<open>The constraint \<open>gt=0\<close> of \<open>Field\<close>: the comparison \<open>v > 0\<close> of Python.\<close>

fun gt_zero :: "pyfloat \<Rightarrow> bool" where
  "gt_zero (Finite q) = (0 < q)"
| "gt_zero PosInf = True"
| "gt_zero NegInf = False"
| "gt_zero NaN = False"

datatype value_error = ValueError

datatype validation_error = ValidationError

definition validate_price :: "pyfloat \<Rightarrow> value_error + pyfloat" where
  "validate_price v = (if float_ne (py_round2 v) v then Inl ValueError else Inr v)"

text \<open>
  The field \<open>price\<close> of \<open>ItemBase\<close>: the constraint of the field is checked first, then the
  validator function runs; a failure of either is a \<open>ValidationError\<close> of the payload.
\<close>

definition ItemBase_price :: "pyfloat \<Rightarrow> validation_error + pyfloat" where
  "ItemBase_price v =
     (if gt_zero v then
        (case validate_price v of Inl ValueError \<Rightarrow> Inl ValidationError | Inr w \<Rightarrow> Inr w)
      else Inl ValidationError)"

text \<open>
  The specification's words: a price is representable with at most two decimal digits
  when it is a finite float, the one that a decimal with at most two fraction digits
  denotes.
\<close>

fun two_decimal :: "pyfloat \<Rightarrow> bool" where
  "two_decimal (Finite q) = (\<exists>k :: int. to_binary64 (of_int k / 100) = Finite q)"
| "two_decimal v = False"

section \<open>Lookups and filters\<close>

lemma find_SomeD: "find P xs = Some x \<Longrightarrow> P x \<and> x \<in> set xs"
  by (induction xs) (auto split: if_splits)

lemma filter_no_match: "\<forall>x \<in> set xs. \<not> P x \<Longrightarrow> filter (\<lambda>x. \<not> P x) xs = xs"
  by (induction xs) auto

lemma find_exists: "\<exists>x \<in> set xs. P x \<Longrightarrow> \<exists>y. find P xs = Some y"
  by (induction xs) auto

lemma find_none: "\<forall>x \<in> set xs. \<not> P x \<Longrightarrow> find P xs = None"
  by (simp add: find_None_iff)

lemma find_replace:
  "find (\<lambda>x. f x = k) xs = Some old \<Longrightarrow> f row = k \<Longrightarrow>
   find (\<lambda>x. f x = k) (map (\<lambda>x. if f x = k then row else x) xs) = Some row"
  by (induction xs) (auto split: if_splits)

section \<open>Deleting a category\<close>

text \<open>
  Claim C1.  \<open>delete_category\<close> succeeds exactly when the category exists and no item
  refers to it, and then removes the rows of \<open>categories\<close> with that id and nothing
  else.  When the category exists and items refer to it, the request fails with status
  400, the detail carries the number of these items, and the database is unchanged, so
  no item is deleted.  When no category has the id, the request fails with status 404
  and the database is unchanged.
\<close>

theorem delete_category_blocks_on_items:
  "(fst (delete_category cid db) = Inr () \<longleftrightarrow>
      (\<exists>c \<in> set (categories db). cat_id c = cid) \<and>
      (\<forall>i \<in> set (items db). item_category_id i \<noteq> cid))
   \<and> (fst (delete_category cid db) = Inr () \<longrightarrow>
        snd (delete_category cid db) =
          db\<lparr>categories := filter (\<lambda>c. cat_id c \<noteq> cid) (categories db)\<rparr>)
   \<and> ((\<exists>c \<in> set (categories db). cat_id c = cid) \<and>
       (\<exists>i \<in> set (items db). item_category_id i = cid) \<longrightarrow>
        delete_category cid db =
          (Inl (HTTPException HTTP_400_BAD_REQUEST
                  (Category_has_items
                     (length (filter (\<lambda>i. item_category_id i = cid) (items db))))), db))
   \<and> ((\<forall>c \<in> set (categories db). cat_id c \<noteq> cid) \<longrightarrow>
        delete_category cid db =
          (Inl (HTTPException HTTP_404_NOT_FOUND (Category_not_found cid)), db))"
proof (cases "find (\<lambda>c. cat_id c = cid) (categories db)")
  case None
  then have no: "\<forall>c \<in> set (categories db). cat_id c \<noteq> cid"
    by (simp add: find_None_iff)
  from None have "delete_category cid db =
      (Inl (HTTPException HTTP_404_NOT_FOUND (Category_not_found cid)), db)"
    by (simp add: delete_category_def)
  with no show ?thesis by auto
next
  case (Some c)
  then have c: "cat_id c = cid" "c \<in> set (categories db)"
    using find_SomeD by fastforce+
  show ?thesis
  proof (cases "\<exists>i \<in> set (items db). item_category_id i = cid")
    case True
    then have "filter (\<lambda>i. item_category_id i = cid) (items db) \<noteq> []"
      by (simp add: filter_empty_conv)
    with Some c have "delete_category cid db =
          (Inl (HTTPException HTTP_400_BAD_REQUEST
                  (Category_has_items
                     (length (filter (\<lambda>i. item_category_id i = cid) (items db))))), db)"
      by (simp add: delete_category_def Category_items_def)
    with True c show ?thesis by auto
  next
    case False
    then have e: "filter (\<lambda>i. item_category_id i = cid) (items db) = []"
      and k: "filter (\<lambda>i. item_category_id i \<noteq> cid) (items db) = items db"
      by (auto simp: filter_empty_conv intro: filter_no_match)
    with Some c have "delete_category cid db =
        (Inr (), db\<lparr>categories := filter (\<lambda>c. cat_id c \<noteq> cid) (categories db)\<rparr>)"
      by (simp add: delete_category_def Category_items_def)
    with False c show ?thesis by auto
  qed
qed

theorem delete_category_blocks_on_items_witness:
  "delete_category 1 menu_db =
     (Inl (HTTPException HTTP_400_BAD_REQUEST (Category_has_items 1)), menu_db)
   \<and> delete_category 7 menu_db =
     (Inl (HTTPException HTTP_404_NOT_FOUND (Category_not_found 7)), menu_db)
   \<and> fst (delete_category 2 menu_db) = Inr ()
   \<and> map cat_name (categories (snd (delete_category 2 menu_db))) = [''Drinks'']
   \<and> items (snd (delete_category 2 menu_db)) = items menu_db
   \<and> fst (delete_category 1 (snd (delete_item 1 menu_db))) = Inr ()"
  using delete_category_blocks_on_items [of 1 menu_db]
    delete_category_blocks_on_items [of 7 menu_db]
    delete_category_blocks_on_items [of 2 menu_db]
    delete_category_blocks_on_items [of 1 "snd (delete_item 1 menu_db)"]
  by (simp add: menu_db_def delete_item_def)

section \<open>The invariant holds in every reachable state\<close>

lemma replace_row_ids:
  "cat_id row = k \<Longrightarrow> map cat_id (map (\<lambda>c. if cat_id c = k then row else c) cs) = map cat_id cs"
  by (induction cs) auto

lemma replace_row_names:
  assumes "distinct (map cat_id cs)" and "distinct (map cat_name cs)"
    and "\<forall>c \<in> set cs. cat_id c \<noteq> k \<longrightarrow> cat_name c \<noteq> cat_name row"
  shows "distinct (map cat_name (map (\<lambda>c. if cat_id c = k then row else c) cs))"
  using assms
proof (induction cs)
  case Nil
  then show ?case by simp
next
  case (Cons c cs)
  show ?case
  proof (cases "cat_id c = k")
    case True
    have noid: "\<forall>x \<in> set cs. cat_id x \<noteq> k"
      using Cons.prems(1) True by (auto simp: image_iff)
    then have same: "map (\<lambda>c. if cat_id c = k then row else c) cs = cs"
      by (induction cs) auto
    have "\<forall>x \<in> set cs. cat_name x \<noteq> cat_name row"
      using Cons.prems(3) noid by simp
    then have "cat_name row \<notin> cat_name ` set cs" by (auto simp: image_iff)
    with Cons.prems(2) True same show ?thesis by simp
  next
    case False
    define f where "f = (\<lambda>c. if cat_id c = k then row else c)"
    have a: "\<forall>x \<in> set cs. cat_name c \<noteq> cat_name x"
      using Cons.prems(2) by (auto simp: image_iff)
    have b: "cat_name c \<noteq> cat_name row"
      using Cons.prems(3) False by simp
    have "\<forall>y \<in> set (map f cs). cat_name c \<noteq> cat_name y"
      using a b by (auto simp: f_def)
    then have notin: "cat_name c \<notin> set (map cat_name (map f cs))"
      by (auto simp: image_iff)
    have "distinct (map cat_name (map f cs))"
      unfolding f_def using Cons.IH Cons.prems by simp
    with notin have "distinct (map cat_name (map f (c # cs)))"
      using False by (simp add: f_def)
    then show ?thesis by (simp add: f_def)
  qed
qed

lemma sorted_ids_distinct: "sorted_wrt (<) (map cat_id cs) \<Longrightarrow> distinct (map cat_id cs)"
  using strict_sorted_iff by blast

lemma insert_category_inv: "db_inv db \<Longrightarrow> db_inv (snd (insert_category name description db))"
  by (auto simp: db_inv_def insert_category_def Let_def sorted_wrt_append split: option.splits)

lemma flush_category_inv:
  assumes "db_inv db" and "old \<in> set (categories db)"
  shows "db_inv (snd (flush_category old name description db))"
proof (cases name)
  case None
  with assms show ?thesis by (simp add: flush_category_def)
next
  case (Some n)
  define row where "row = old\<lparr>cat_name := n, cat_description := description\<rparr>"
  define cs where "cs = map (\<lambda>c. if cat_id c = cat_id old then row else c) (categories db)"
  show ?thesis
  proof (cases "n \<noteq> cat_name old \<and>
             (\<exists>c \<in> set (categories db). cat_id c \<noteq> cat_id old \<and> cat_name c = n)")
    case True
    with Some assms show ?thesis by (simp add: flush_category_def)
  next
    case False
    have ids: "map cat_id cs = map cat_id (categories db)"
      unfolding cs_def by (rule replace_row_ids) (simp add: row_def)
    have d: "distinct (map cat_id (categories db))" "distinct (map cat_name (categories db))"
      using assms(1) by (auto simp: db_inv_def intro: sorted_ids_distinct)
    have other: "\<forall>c \<in> set (categories db). cat_id c \<noteq> cat_id old \<longrightarrow> cat_name c \<noteq> cat_name row"
    proof (intro ballI impI)
      fix c assume c: "c \<in> set (categories db)" "cat_id c \<noteq> cat_id old"
      show "cat_name c \<noteq> cat_name row"
      proof (cases "n = cat_name old")
        case True
        from c have "c \<noteq> old" by auto
        with d(2) c(1) assms(2) have "cat_name c \<noteq> cat_name old"
          by (auto simp: distinct_map inj_on_def)
        with True show ?thesis by (simp add: row_def)
      next
        case neq: False
        with False c show ?thesis by (auto simp: row_def)
      qed
    qed
    have names: "distinct (map cat_name cs)"
      unfolding cs_def by (rule replace_row_names [OF d other])
    have sorted: "sorted_wrt (<) (map cat_id cs)"
      unfolding ids using assms(1) by (simp add: db_inv_def)
    have bound: "\<forall>c \<in> set cs. cat_id c < next_category_id db"
      unfolding cs_def using assms by (auto simp: db_inv_def row_def)
    have "snd (flush_category old name description db) = db\<lparr>categories := cs\<rparr>"
      using Some False by (auto simp: flush_category_def Let_def cs_def row_def)
    with sorted names bound show ?thesis
      by (simp add: db_inv_def)
  qed
qed

lemma create_category_inv: "db_inv db \<Longrightarrow> db_inv (snd (create_category c db))"
  by (simp add: create_category_def insert_category_inv split: option.splits)

lemma update_category_inv: "db_inv db \<Longrightarrow> db_inv (snd (update_category cid cu db))"
  by (auto simp: update_category_def apply_category_update_def flush_category_inv
      dest: find_SomeD split: option.splits)

lemma delete_category_inv: "db_inv db \<Longrightarrow> db_inv (snd (delete_category cid db))"
  by (auto simp: delete_category_def db_inv_def sorted_wrt_filter sorted_wrt_map distinct_map_filter
      split: option.splits)

lemma flush_item_categories:
  "categories (snd (flush_item old a now db)) = categories db \<and>
   next_category_id (snd (flush_item old a now db)) = next_category_id db"
  by (simp add: flush_item_def Let_def split: option.splits prod.splits)

lemma create_item_inv: "db_inv db \<Longrightarrow> db_inv (snd (create_item it now db))"
  by (simp add: create_item_def insert_item_def db_inv_def Let_def split: option.splits)

lemma update_item_inv: "db_inv db \<Longrightarrow> db_inv (snd (update_item iid iu now db))"
  by (simp add: update_item_def apply_item_update_def db_inv_def flush_item_categories
      split: option.splits)

lemma delete_item_inv: "db_inv db \<Longrightarrow> db_inv (snd (delete_item iid db))"
  by (simp add: delete_item_def db_inv_def split: option.splits)

lemma toggle_item_active_inv: "db_inv db \<Longrightarrow> db_inv (snd (toggle_item_active iid now db))"
  by (simp add: toggle_item_active_def db_inv_def flush_item_categories split: option.splits)

lemma reachable_inv: "reachable db \<Longrightarrow> db_inv db"
proof (induction rule: reachable.induct)
  case r_init
  show ?case by (simp add: db_inv_def init_db_def)
qed (simp_all add: create_category_inv update_category_inv delete_category_inv
       create_item_inv update_item_inv delete_item_inv toggle_item_active_inv)

text \<open>The small menu is the state after three requests.\<close>

lemma menu_db_run:
  "snd (create_item Cola 10 (snd (create_category Desserts (snd (create_category Drinks init_db)))))
     = menu_db"
  by (simp add: menu_db_def Drinks_def Desserts_def Cola_def init_db_def create_category_def
      create_item_def insert_category_def insert_item_def Let_def)

lemma reachable_menu_db: "reachable menu_db"
  unfolding menu_db_run [symmetric]
  by (intro reachable.intros)


section \<open>Creating a category\<close>

text \<open>
  Claim C3.  When a category of the table has exactly the requested name,
  \<open>create_category\<close> fails with status 400 whatever the description is, and the database
  is unchanged.  When no category has the name, it succeeds: the new row carries the
  next value of the identity column, the requested name and description, and is added at
  the end of the table.  In a reachable state that id belongs to no existing category.
\<close>

theorem create_category_duplicate_name:
  "((\<exists>c \<in> set (categories db). cat_name c = cc_name category) \<longrightarrow>
      create_category category db =
        (Inl (HTTPException HTTP_400_BAD_REQUEST (Category_name_exists (cc_name category))), db))
   \<and> ((\<forall>c \<in> set (categories db). cat_name c \<noteq> cc_name category) \<longrightarrow>
      create_category category db =
        (Inr \<lparr>cat_id = next_category_id db, cat_name = cc_name category,
               cat_description = cc_description category\<rparr>,
         db\<lparr>categories := categories db @
               [\<lparr>cat_id = next_category_id db, cat_name = cc_name category,
                 cat_description = cc_description category\<rparr>],
            next_category_id := next_category_id db + 1\<rparr>))
   \<and> (reachable db \<longrightarrow> (\<forall>c \<in> set (categories db). cat_id c \<noteq> next_category_id db))"
proof (intro conjI impI)
  assume "\<exists>c \<in> set (categories db). cat_name c = cc_name category"
  from find_exists [OF this] obtain e
    where "find (\<lambda>c. cat_name c = cc_name category) (categories db) = Some e" by blast
  then show "create_category category db =
        (Inl (HTTPException HTTP_400_BAD_REQUEST (Category_name_exists (cc_name category))), db)"
    by (simp add: create_category_def)
next
  assume no: "\<forall>c \<in> set (categories db). cat_name c \<noteq> cc_name category"
  then have "find (\<lambda>c. cat_name c = cc_name category) (categories db) = None"
    by (simp add: find_None_iff)
  moreover from no have "cc_name category \<notin> set (map cat_name (categories db))"
    by auto
  ultimately show "create_category category db =
        (Inr \<lparr>cat_id = next_category_id db, cat_name = cc_name category,
               cat_description = cc_description category\<rparr>,
         db\<lparr>categories := categories db @
               [\<lparr>cat_id = next_category_id db, cat_name = cc_name category,
                 cat_description = cc_description category\<rparr>],
            next_category_id := next_category_id db + 1\<rparr>)"
    by (simp add: create_category_def insert_category_def Let_def)
next
  assume "reachable db"
  then have "db_inv db" by (rule reachable_inv)
  then show "\<forall>c \<in> set (categories db). cat_id c \<noteq> next_category_id db"
    by (auto simp: db_inv_def)
qed

theorem create_category_duplicate_name_witness:
  "create_category \<lparr>cc_name = ''Drinks'', cc_description = Some ''Cold''\<rparr> menu_db =
     (Inl (HTTPException HTTP_400_BAD_REQUEST (Category_name_exists ''Drinks'')), menu_db)
   \<and> fst (create_category \<lparr>cc_name = ''drinks'', cc_description = None\<rparr> menu_db) =
       Inr \<lparr>cat_id = 3, cat_name = ''drinks'', cat_description = None\<rparr>
   \<and> map cat_id (categories (snd (create_category \<lparr>cc_name = ''drinks'', cc_description = None\<rparr> menu_db)))
       = [1, 2, 3]
   \<and> 3 \<notin> set (map cat_id (categories menu_db))"
  using create_category_duplicate_name
      [of menu_db "\<lparr>cc_name = ''Drinks'', cc_description = Some ''Cold''\<rparr>"]
    create_category_duplicate_name
      [of menu_db "\<lparr>cc_name = ''drinks'', cc_description = None\<rparr>"]
    reachable_menu_db
  by (simp add: menu_db_def)

section \<open>Listing categories\<close>

lemma sorted_ids_scan:
  assumes "sorted_wrt (<) (map cat_id cs)"
  shows "sort_key cat_id cs = cs"
proof -
  from assms have "sorted (map cat_id cs)"
    using strict_sorted_iff by blast
  then show ?thesis by (rule sort_key_id_if_sorted)
qed

text \<open>
  An engine that returns the rows of the small menu in descending order of the primary
  key returns every row once, and the listing is then not in creation order.
\<close>

theorem list_categories_order_counterexample:
  "mset (rev (categories menu_db)) = mset (categories menu_db)
   \<and> map cat_name (list_categories rev 0 100 menu_db) = [''Desserts'', ''Drinks'']
   \<and> \<not> sorted_wrt (<) (map cat_id (list_categories rev 0 100 menu_db))"
  by (simp add: list_categories_def menu_db_def)

text \<open>
  Claim C9, amended.  For an engine that returns every row of the table once, in whatever
  order, \<open>list_categories\<close> returns a window of that order: at most \<open>limit\<close> categories,
  all of them rows of the table, consecutive windows join to the longer window, and with
  \<open>skip = 0\<close> and a limit that the number of categories does not exceed every category
  is returned once.  The order is the order of creation when the engine scans by primary
  key: in every reachable state the listing is then the window of the table in
  insertion order, with strictly ascending ids, and a created category is placed after
  every existing one.
\<close>

theorem list_categories_scan_window:
  "(mset (scan (categories db)) = mset (categories db) \<longrightarrow>
      length (list_categories scan skip limit db) \<le> limit \<and>
      set (list_categories scan skip limit db) \<subseteq> set (categories db) \<and>
      list_categories scan skip limit db @ list_categories scan (skip + limit) limit2 db =
        list_categories scan skip (limit + limit2) db \<and>
      (length (categories db) \<le> limit \<longrightarrow>
         mset (list_categories scan 0 limit db) = mset (categories db)))
   \<and> (reachable db \<longrightarrow>
        list_categories (sort_key cat_id) skip limit db =
          take limit (drop skip (categories db)) \<and>
        sorted_wrt (<) (map cat_id (list_categories (sort_key cat_id) skip limit db)))
   \<and> (\<forall>row. fst (create_category c db) = Inr row \<longrightarrow>
         categories (snd (create_category c db)) = categories db @ [row])"
proof (intro conjI impI allI)
  assume p: "mset (scan (categories db)) = mset (categories db)"
  show "length (list_categories scan skip limit db) \<le> limit"
    by (simp add: list_categories_def)
  have "set (list_categories scan skip limit db) \<subseteq> set (scan (categories db))"
    unfolding list_categories_def
    by (meson set_take_subset set_drop_subset subset_trans)
  also have "set (scan (categories db)) = set (categories db)"
    using p by (rule mset_eq_setD)
  finally show "set (list_categories scan skip limit db) \<subseteq> set (categories db)" .
  show "list_categories scan skip limit db @ list_categories scan (skip + limit) limit2 db =
        list_categories scan skip (limit + limit2) db"
    by (simp add: list_categories_def take_add add.commute)
  assume "length (categories db) \<le> limit"
  moreover from p have "length (scan (categories db)) = length (categories db)"
    by (rule mset_eq_length)
  ultimately show "mset (list_categories scan 0 limit db) = mset (categories db)"
    using p by (simp add: list_categories_def)
next
  assume "reachable db"
  then have "db_inv db" by (rule reachable_inv)
  then have s: "sorted_wrt (<) (map cat_id (categories db))" by (simp add: db_inv_def)
  then have id: "sort_key cat_id (categories db) = categories db" by (rule sorted_ids_scan)
  show w: "list_categories (sort_key cat_id) skip limit db =
          take limit (drop skip (categories db))"
    by (simp add: list_categories_def id)
  from s have "sorted_wrt (<) (drop skip (map cat_id (categories db)))"
    by (rule sorted_wrt_drop)
  then have "sorted_wrt (<) (take limit (drop skip (map cat_id (categories db))))"
    by (rule sorted_wrt_take)
  then show "sorted_wrt (<) (map cat_id (list_categories (sort_key cat_id) skip limit db))"
    unfolding w by (simp add: take_map drop_map)
next
  fix row assume "fst (create_category c db) = Inr row"
  then show "categories (snd (create_category c db)) = categories db @ [row]"
    by (auto simp: create_category_def insert_category_def Let_def split: option.splits if_splits)
qed

theorem list_categories_scan_window_witness:
  "map cat_name (list_categories rev 1 5 menu_db) = [''Drinks'']
   \<and> mset (list_categories rev 0 2 menu_db) = mset (categories menu_db)
   \<and> map cat_name (list_categories (sort_key cat_id) 0 1 menu_db) = [''Drinks'']
   \<and> map cat_name (list_categories (sort_key cat_id) 1 5 menu_db) = [''Desserts'']
   \<and> sorted_wrt (<) (map cat_id (list_categories (sort_key cat_id) 0 100 menu_db))
   \<and> map cat_name (categories (snd (create_category \<lparr>cc_name = ''Pizza'', cc_description = None\<rparr> menu_db)))
       = [''Drinks'', ''Desserts'', ''Pizza'']"
  using list_categories_scan_window [of rev menu_db 1 5]
    list_categories_scan_window [of rev menu_db 0 2]
    list_categories_scan_window [of "sort_key cat_id" menu_db 0 1]
    list_categories_scan_window [of "sort_key cat_id" menu_db 1 5]
    list_categories_scan_window [of "sort_key cat_id" menu_db 0 100 0
      "\<lparr>cc_name = ''Pizza'', cc_description = None\<rparr>"]
    reachable_menu_db
  by (simp add: menu_db_def list_categories_def create_category_def insert_category_def Let_def)

section \<open>Uniqueness of category names\<close>

lemma update_category_name_taken:
  assumes v: "CategoryUpdate_valid cu" and nm: "cu_name cu = Given (Some n)"
    and t: "\<exists>c \<in> set (categories db). cat_id c = cid"
    and o: "\<exists>c \<in> set (categories db). cat_id c \<noteq> cid \<and> cat_name c = n"
  shows "update_category cid cu db =
          (Inl (HTTPException HTTP_400_BAD_REQUEST (Category_name_exists n)), db)"
proof -
  from v nm have n: "n \<noteq> []" by (auto simp: CategoryUpdate_valid_def)
  from find_exists [OF t] obtain tc
    where tc: "find (\<lambda>c. cat_id c = cid) (categories db) = Some tc" by blast
  from o have "\<exists>c \<in> set (categories db). cat_name c = n \<and> cat_id c \<noteq> cid" by blast
  from find_exists [OF this] obtain e
    where e: "find (\<lambda>c. cat_name c = n \<and> cat_id c \<noteq> cid) (categories db) = Some e" by blast
  show ?thesis
    unfolding update_category_def by (simp add: tc nm n e)
qed

lemma update_category_own_name:
  assumes inv: "db_inv db" and nm: "cu_name cu = Given (Some n)" and n: "n \<noteq> []"
    and f: "find (\<lambda>c. cat_id c = cid) (categories db) = Some c" and own: "cat_name c = n"
  shows "update_category cid cu db =
          (Inr (c\<lparr>cat_description := setattr (cu_description cu) (cat_description c)\<rparr>),
           db\<lparr>categories :=
                map (\<lambda>x. if cat_id x = cid
                         then c\<lparr>cat_description := setattr (cu_description cu) (cat_description c)\<rparr>
                         else x) (categories db)\<rparr>)"
proof -
  from find_SomeD [OF f] have c: "cat_id c = cid" "c \<in> set (categories db)" by simp_all
  from inv have d: "distinct (map cat_name (categories db))" by (simp add: db_inv_def)
  have "\<forall>x \<in> set (categories db). \<not> (cat_name x = n \<and> cat_id x \<noteq> cid)"
  proof (intro ballI notI)
    fix x assume x: "x \<in> set (categories db)" and h: "cat_name x = n \<and> cat_id x \<noteq> cid"
    from d have "inj_on cat_name (set (categories db))" by (simp add: distinct_map)
    with x c(2) h own have "x = c" by (simp add: inj_on_def)
    with h c(1) show False by simp
  qed
  then have e: "find (\<lambda>x. cat_name x = n \<and> cat_id x \<noteq> cid) (categories db) = None"
    by (simp add: find_None_iff)
  define d' where "d' = setattr (cu_description cu) (cat_description c)"
  have row: "c\<lparr>cat_name := n, cat_description := d'\<rparr> = c\<lparr>cat_description := d'\<rparr>"
    using own by (cases c) simp
  have "update_category cid cu db = flush_category c (Some n) d' db"
    unfolding update_category_def apply_category_update_def d'_def
    by (simp add: f nm n e)
  also have "\<dots> = (Inr (c\<lparr>cat_name := n, cat_description := d'\<rparr>),
       db\<lparr>categories := map (\<lambda>x. if cat_id x = cat_id c
                                 then c\<lparr>cat_name := n, cat_description := d'\<rparr> else x)
                              (categories db)\<rparr>)"
    unfolding flush_category_def by (simp add: own Let_def)
  finally have "update_category cid cu db =
      (Inr (c\<lparr>cat_name := n, cat_description := d'\<rparr>),
       db\<lparr>categories := map (\<lambda>x. if cat_id x = cat_id c
                                 then c\<lparr>cat_name := n, cat_description := d'\<rparr> else x)
                              (categories db)\<rparr>)" .
  then show ?thesis unfolding row c(1) unfolding d'_def .
qed


text \<open>
  Claim C2.  In every state that create, update, delete and toggle requests produce from
  the empty database, no two rows of \<open>categories\<close> have the same name.  For a payload
  that passes the field constraints of \<open>CategoryUpdate\<close>, \<open>update_category\<close> of an
  existing category with the name of a different category fails with status 400 and
  leaves the database as it was, so no field of the payload is applied; with the target's
  own current name the update is accepted and only the description follows the payload.
\<close>

theorem category_names_unique:
  "(reachable db \<longrightarrow> distinct (map cat_name (categories db)))
   \<and> (CategoryUpdate_valid cu \<and> cu_name cu = Given (Some n) \<and>
       (\<exists>c \<in> set (categories db). cat_id c = cid) \<and>
       (\<exists>c \<in> set (categories db). cat_id c \<noteq> cid \<and> cat_name c = n) \<longrightarrow>
        update_category cid cu db =
          (Inl (HTTPException HTTP_400_BAD_REQUEST (Category_name_exists n)), db))
   \<and> (reachable db \<and> CategoryUpdate_valid cu \<and> cu_name cu = Given (Some n) \<and>
       find (\<lambda>c. cat_id c = cid) (categories db) = Some c \<and> cat_name c = n \<longrightarrow>
        update_category cid cu db =
          (Inr (c\<lparr>cat_description := setattr (cu_description cu) (cat_description c)\<rparr>),
           db\<lparr>categories :=
                map (\<lambda>x. if cat_id x = cid
                         then c\<lparr>cat_description := setattr (cu_description cu) (cat_description c)\<rparr>
                         else x) (categories db)\<rparr>))"
proof (intro conjI impI)
  assume "reachable db"
  then have "db_inv db" by (rule reachable_inv)
  then show "distinct (map cat_name (categories db))" by (simp add: db_inv_def)
next
  assume "CategoryUpdate_valid cu \<and> cu_name cu = Given (Some n) \<and>
       (\<exists>c \<in> set (categories db). cat_id c = cid) \<and>
       (\<exists>c \<in> set (categories db). cat_id c \<noteq> cid \<and> cat_name c = n)"
  then show "update_category cid cu db =
          (Inl (HTTPException HTTP_400_BAD_REQUEST (Category_name_exists n)), db)"
    by (intro update_category_name_taken) simp_all
next
  assume a: "reachable db \<and> CategoryUpdate_valid cu \<and> cu_name cu = Given (Some n) \<and>
       find (\<lambda>c. cat_id c = cid) (categories db) = Some c \<and> cat_name c = n"
  then have inv: "db_inv db" by (simp add: reachable_inv)
  from a have n: "n \<noteq> []" by (auto simp: CategoryUpdate_valid_def)
  from a have nm: "cu_name cu = Given (Some n)"
    and f: "find (\<lambda>c. cat_id c = cid) (categories db) = Some c"
    and own: "cat_name c = n" by simp_all
  show "update_category cid cu db =
          (Inr (c\<lparr>cat_description := setattr (cu_description cu) (cat_description c)\<rparr>),
           db\<lparr>categories :=
                map (\<lambda>x. if cat_id x = cid
                         then c\<lparr>cat_description := setattr (cu_description cu) (cat_description c)\<rparr>
                         else x) (categories db)\<rparr>)"
    by (rule update_category_own_name [OF inv nm n f own])
qed

theorem category_names_unique_witness:
  "distinct (map cat_name (categories menu_db))
   \<and> update_category 2 \<lparr>cu_name = Given (Some ''Drinks''), cu_description = Given (Some ''x'')\<rparr> menu_db =
       (Inl (HTTPException HTTP_400_BAD_REQUEST (Category_name_exists ''Drinks'')), menu_db)
   \<and> fst (update_category 2 \<lparr>cu_name = Given (Some ''Desserts''), cu_description = Given (Some ''x'')\<rparr> menu_db) =
       Inr \<lparr>cat_id = 2, cat_name = ''Desserts'', cat_description = Some ''x''\<rparr>"
  using category_names_unique
      [of menu_db "\<lparr>cu_name = Given (Some ''Drinks''), cu_description = Given (Some ''x'')\<rparr>" "''Drinks''" 2]
    category_names_unique
      [of menu_db "\<lparr>cu_name = Given (Some ''Desserts''), cu_description = Given (Some ''x'')\<rparr>" "''Desserts''" 2
          "\<lparr>cat_id = 2, cat_name = ''Desserts'', cat_description = Some ''Sweet''\<rparr>"]
    reachable_menu_db
  by (simp add: menu_db_def CategoryUpdate_valid_def)

section \<open>The category of an item must exist\<close>

lemma create_item_no_category:
  assumes "\<forall>c \<in> set (categories db). cat_id c \<noteq> ic_category_id item"
  shows "create_item item now db =
      (Inl (HTTPException HTTP_404_NOT_FOUND (Category_not_found (ic_category_id item))), db)"
proof -
  from assms have "find (\<lambda>c. cat_id c = ic_category_id item) (categories db) = None"
    by (intro find_none) simp
  then show ?thesis by (simp add: create_item_def)
qed

lemma update_item_no_category:
  assumes v: "ItemUpdate_valid iu" and g: "iu_category_id iu = Given (Some cid)"
    and no: "\<forall>c \<in> set (categories db). cat_id c \<noteq> cid"
  shows "update_item iid iu now db =
      (case find (\<lambda>i. item_id i = iid) (items db) of
         None \<Rightarrow> (Inl (HTTPException HTTP_404_NOT_FOUND (Item_not_found iid)), db)
       | Some old \<Rightarrow> (Inl (HTTPException HTTP_404_NOT_FOUND (Category_not_found cid)), db))"
proof -
  from v g have pos: "cid \<noteq> 0" by (simp add: ItemUpdate_valid_def)
  from no have nf: "find (\<lambda>c. cat_id c = cid) (categories db) = None"
    by (intro find_none) simp
  show ?thesis
    unfolding update_item_def by (simp add: g pos nf split: option.splits)
qed

text \<open>
  Claim C4.  \<open>create_item\<close> with a \<open>category_id\<close> that no category has fails with status
  404 naming the category, and the database is unchanged.  \<open>update_item\<close> with a payload
  that passes the field constraints of \<open>ItemUpdate\<close> and supplies such a \<open>category_id\<close>
  fails with status 404 and leaves the database unchanged; when the item exists the
  error names the missing category (when it does not, the missing item).
\<close>

theorem item_category_must_exist:
  "((\<forall>c \<in> set (categories db). cat_id c \<noteq> ic_category_id item) \<longrightarrow>
      create_item item now db =
        (Inl (HTTPException HTTP_404_NOT_FOUND (Category_not_found (ic_category_id item))), db))
   \<and> (ItemUpdate_valid iu \<and> iu_category_id iu = Given (Some cid) \<and>
       (\<forall>c \<in> set (categories db). cat_id c \<noteq> cid) \<longrightarrow>
        snd (update_item iid iu now db) = db \<and>
        (\<exists>d. fst (update_item iid iu now db) = Inl (HTTPException HTTP_404_NOT_FOUND d)) \<and>
        ((\<exists>i \<in> set (items db). item_id i = iid) \<longrightarrow>
           fst (update_item iid iu now db) =
             Inl (HTTPException HTTP_404_NOT_FOUND (Category_not_found cid))))"
proof (intro conjI impI)
  assume "\<forall>c \<in> set (categories db). cat_id c \<noteq> ic_category_id item"
  then show "create_item item now db =
        (Inl (HTTPException HTTP_404_NOT_FOUND (Category_not_found (ic_category_id item))), db)"
    by (rule create_item_no_category)
next
  assume a: "ItemUpdate_valid iu \<and> iu_category_id iu = Given (Some cid) \<and>
       (\<forall>c \<in> set (categories db). cat_id c \<noteq> cid)"
  then have u: "update_item iid iu now db =
      (case find (\<lambda>i. item_id i = iid) (items db) of
         None \<Rightarrow> (Inl (HTTPException HTTP_404_NOT_FOUND (Item_not_found iid)), db)
       | Some old \<Rightarrow> (Inl (HTTPException HTTP_404_NOT_FOUND (Category_not_found cid)), db))"
    by (intro update_item_no_category) simp_all
  show "snd (update_item iid iu now db) = db"
    unfolding u by (simp split: option.splits)
  show "\<exists>d. fst (update_item iid iu now db) = Inl (HTTPException HTTP_404_NOT_FOUND d)"
    unfolding u by (simp split: option.splits)
  assume "\<exists>i \<in> set (items db). item_id i = iid"
  from find_exists [OF this] obtain old
    where "find (\<lambda>i. item_id i = iid) (items db) = Some old" by blast
  then show "fst (update_item iid iu now db) =
             Inl (HTTPException HTTP_404_NOT_FOUND (Category_not_found cid))"
    unfolding u by simp
qed

theorem item_category_must_exist_witness:
  "create_item (Cola\<lparr>ic_category_id := 9\<rparr>) 20 menu_db =
     (Inl (HTTPException HTTP_404_NOT_FOUND (Category_not_found 9)), menu_db)
   \<and> update_item 1 move_to_9 20 menu_db =
     (Inl (HTTPException HTTP_404_NOT_FOUND (Category_not_found 9)), menu_db)
   \<and> update_item 5 move_to_9 20 menu_db =
     (Inl (HTTPException HTTP_404_NOT_FOUND (Item_not_found 5)), menu_db)"
  using item_category_must_exist [of menu_db "Cola\<lparr>ic_category_id := 9\<rparr>" 20 move_to_9 9 1]
    item_category_must_exist [of menu_db "Cola\<lparr>ic_category_id := 9\<rparr>" 20 move_to_9 9 5]
  by (simp add: menu_db_def Cola_def move_to_9_def ItemUpdate_valid_def update_item_def
      prod_eq_iff)

section \<open>Partial updates\<close>

lemma flush_item_cases:
  "flush_item old a now db = (Inr old, db) \<or>
   flush_item old a now db = (Inl IntegrityError, db) \<or>
   (\<exists>c n p. a_category_id a = Some c \<and> a_name a = Some n \<and> a_price a = Some p \<and>
      flush_item old a now db =
           (Inr (old\<lparr>item_category_id := c, item_name := n,
                      item_description := a_description a, item_price := p,
                      item_rating := a_rating a, item_is_active := a_is_active a,
                      item_updated_at := now\<rparr>),
            db\<lparr>items := map (\<lambda>i. if item_id i = item_id old
                         then old\<lparr>item_category_id := c, item_name := n,
                              item_description := a_description a, item_price := p,
                              item_rating := a_rating a, item_is_active := a_is_active a,
                              item_updated_at := now\<rparr>
                         else i) (items db)\<rparr>))"
  by (cases "a = attrs_of old"; cases "a_category_id a"; cases "a_name a"; cases "a_price a")
    (simp_all add: flush_item_def Let_def)

lemma flush_category_cases:
  "flush_category old nm d db = (Inl IntegrityError, db) \<or>
   (\<exists>n. nm = Some n \<and>
      flush_category old nm d db =
           (Inr (old\<lparr>cat_name := n, cat_description := d\<rparr>),
            db\<lparr>categories := map (\<lambda>c. if cat_id c = cat_id old
                         then old\<lparr>cat_name := n, cat_description := d\<rparr> else c)
                       (categories db)\<rparr>))"
  by (cases nm) (simp_all add: flush_category_def Let_def)

lemma flush_item_frame:
  assumes f: "find (\<lambda>i. item_id i = iid) (items db) = Some old"
  shows "\<exists>new. find (\<lambda>i. item_id i = iid) (items (snd (flush_item old a now db))) = Some new \<and>
      (\<forall>r. fst (flush_item old a now db) = Inr r \<longrightarrow> r = new) \<and>
      item_id new = item_id old \<and> item_created_at new = item_created_at old \<and>
      (a_category_id a = Some (item_category_id old) \<longrightarrow>
         item_category_id new = item_category_id old) \<and>
      (a_name a = Some (item_name old) \<longrightarrow> item_name new = item_name old) \<and>
      (a_description a = item_description old \<longrightarrow>
         item_description new = item_description old) \<and>
      (a_price a = Some (item_price old) \<longrightarrow> item_price new = item_price old) \<and>
      (a_rating a = item_rating old \<longrightarrow> item_rating new = item_rating old) \<and>
      (a_is_active a = item_is_active old \<longrightarrow> item_is_active new = item_is_active old)"
proof -
  from find_SomeD [OF f] have id: "item_id old = iid" by simp
  consider (same) "flush_item old a now db = (Inr old, db)"
    | (fail) "flush_item old a now db = (Inl IntegrityError, db)"
    | (row) c n p where "a_category_id a = Some c" "a_name a = Some n" "a_price a = Some p"
        "flush_item old a now db =
           (Inr (old\<lparr>item_category_id := c, item_name := n,
                      item_description := a_description a, item_price := p,
                      item_rating := a_rating a, item_is_active := a_is_active a,
                      item_updated_at := now\<rparr>),
            db\<lparr>items := map (\<lambda>i. if item_id i = item_id old
                         then old\<lparr>item_category_id := c, item_name := n,
                              item_description := a_description a, item_price := p,
                              item_rating := a_rating a, item_is_active := a_is_active a,
                              item_updated_at := now\<rparr>
                         else i) (items db)\<rparr>)"
    using flush_item_cases [of old a now db] by blast
  then show ?thesis
  proof cases
    case same
    with f show ?thesis by simp
  next
    case fail
    with f show ?thesis by simp
  next
    case row
    define new where "new = old\<lparr>item_category_id := c, item_name := n,
                      item_description := a_description a, item_price := p,
                      item_rating := a_rating a, item_is_active := a_is_active a,
                      item_updated_at := now\<rparr>"
    have fl: "flush_item old a now db =
        (Inr new, db\<lparr>items := map (\<lambda>i. if item_id i = iid then new else i) (items db)\<rparr>)"
      using row(4) unfolding new_def id .
    have "item_id new = iid" by (simp add: new_def id)
    from find_replace [OF f this]
    have "find (\<lambda>i. item_id i = iid) (items (snd (flush_item old a now db))) = Some new"
      by (simp add: fl)
    moreover have "\<forall>r. fst (flush_item old a now db) = Inr r \<longrightarrow> r = new"
      by (simp add: fl)
    moreover have "item_id new = item_id old \<and> item_created_at new = item_created_at old"
      by (simp add: new_def)
    moreover have "item_category_id new = c \<and> item_name new = n \<and> item_price new = p
        \<and> item_description new = a_description a \<and> item_rating new = a_rating a
        \<and> item_is_active new = a_is_active a"
      by (simp add: new_def)
    ultimately show ?thesis using row(1-3) by auto
  qed
qed

lemma update_item_outcome:
  assumes "find (\<lambda>i. item_id i = iid) (items db) = Some old"
  shows "(\<exists>e. update_item iid iu now db = (Inl e, db)) \<or>
         update_item iid iu now db = apply_item_update old iu now db"
  using assms by (simp add: update_item_def split: option.splits)

lemma update_category_outcome:
  assumes "find (\<lambda>c. cat_id c = cid) (categories db) = Some old"
  shows "(\<exists>e. update_category cid cu db = (Inl e, db)) \<or>
         update_category cid cu db = apply_category_update old cu db"
  using assms by (simp add: update_category_def split: option.splits)

lemma flush_category_frame:
  assumes f: "find (\<lambda>c. cat_id c = cid) (categories db) = Some old"
  shows "\<exists>new. find (\<lambda>c. cat_id c = cid) (categories (snd (flush_category old nm d db))) = Some new \<and>
      (\<forall>r. fst (flush_category old nm d db) = Inr r \<longrightarrow> r = new) \<and>
      cat_id new = cat_id old \<and>
      (nm = Some (cat_name old) \<longrightarrow> cat_name new = cat_name old) \<and>
      (d = cat_description old \<longrightarrow> cat_description new = cat_description old)"
proof -
  from find_SomeD [OF f] have id: "cat_id old = cid" by simp
  consider (fail) "flush_category old nm d db = (Inl IntegrityError, db)"
    | (row) n where "nm = Some n"
        "flush_category old nm d db =
           (Inr (old\<lparr>cat_name := n, cat_description := d\<rparr>),
            db\<lparr>categories := map (\<lambda>c. if cat_id c = cat_id old
                         then old\<lparr>cat_name := n, cat_description := d\<rparr> else c)
                       (categories db)\<rparr>)"
    using flush_category_cases [of old nm d db] by blast
  then show ?thesis
  proof cases
    case fail
    with f show ?thesis by simp
  next
    case row
    define new where "new = old\<lparr>cat_name := n, cat_description := d\<rparr>"
    have fl: "flush_category old nm d db =
        (Inr new, db\<lparr>categories := map (\<lambda>c. if cat_id c = cid then new else c) (categories db)\<rparr>)"
      using row(2) unfolding new_def id .
    have "cat_id new = cid" by (simp add: new_def id)
    from find_replace [OF f this]
    have "find (\<lambda>c. cat_id c = cid) (categories (snd (flush_category old nm d db))) = Some new"
      by (simp add: fl)
    moreover have "\<forall>r. fst (flush_category old nm d db) = Inr r \<longrightarrow> r = new"
      by (simp add: fl)
    moreover have "cat_id new = cat_id old \<and> cat_name new = n \<and> cat_description new = d"
      by (simp add: new_def)
    ultimately show ?thesis using row(1) by auto
  qed
qed


text \<open>
  Claim C6.  Whatever \<open>update_item\<close> answers, the row of an existing item afterwards has
  the same id and \<open>created_at\<close>, and every field that the payload does not supply
  keeps its value; a successful call returns that row.  The same holds for the row of
  a category under \<open>update_category\<close>.  (\<open>updated_at\<close> is no field of the payload; the
  database refreshes it when the row is rewritten.)
\<close>

theorem update_keeps_absent_fields:
  "(find (\<lambda>i. item_id i = iid) (items db) = Some old \<longrightarrow>
      (\<exists>new. find (\<lambda>i. item_id i = iid) (items (snd (update_item iid iu now db))) = Some new \<and>
         (\<forall>r. fst (update_item iid iu now db) = Inr r \<longrightarrow> r = new) \<and>
         item_id new = item_id old \<and> item_created_at new = item_created_at old \<and>
         (iu_category_id iu = Unset \<longrightarrow> item_category_id new = item_category_id old) \<and>
         (iu_name iu = Unset \<longrightarrow> item_name new = item_name old) \<and>
         (iu_description iu = Unset \<longrightarrow> item_description new = item_description old) \<and>
         (iu_price iu = Unset \<longrightarrow> item_price new = item_price old) \<and>
         (iu_rating iu = Unset \<longrightarrow> item_rating new = item_rating old) \<and>
         (iu_is_active iu = Unset \<longrightarrow> item_is_active new = item_is_active old)))
   \<and> (find (\<lambda>c. cat_id c = cid) (categories db) = Some c \<longrightarrow>
      (\<exists>c'. find (\<lambda>c. cat_id c = cid) (categories (snd (update_category cid cu db))) = Some c' \<and>
         (\<forall>r. fst (update_category cid cu db) = Inr r \<longrightarrow> r = c') \<and>
         cat_id c' = cat_id c \<and>
         (cu_name cu = Unset \<longrightarrow> cat_name c' = cat_name c) \<and>
         (cu_description cu = Unset \<longrightarrow> cat_description c' = cat_description c)))"
proof (intro conjI impI)
  assume f: "find (\<lambda>i. item_id i = iid) (items db) = Some old"
  define a where "a =
       \<lparr>a_category_id = setattr (iu_category_id iu) (Some (item_category_id old)),
        a_name = setattr (iu_name iu) (Some (item_name old)),
        a_description = setattr (iu_description iu) (item_description old),
        a_price = setattr (iu_price iu) (Some (item_price old)),
        a_rating = setattr (iu_rating iu) (item_rating old),
        a_is_active = setattr (iu_is_active iu) (item_is_active old)\<rparr>"
  from update_item_outcome [OF f, of iu now]
  consider (rejected) e where "update_item iid iu now db = (Inl e, db)"
    | (applied) "update_item iid iu now db = flush_item old a now db"
    unfolding apply_item_update_def a_def by blast
  then show "\<exists>new. find (\<lambda>i. item_id i = iid) (items (snd (update_item iid iu now db))) = Some new \<and>
         (\<forall>r. fst (update_item iid iu now db) = Inr r \<longrightarrow> r = new) \<and>
         item_id new = item_id old \<and> item_created_at new = item_created_at old \<and>
         (iu_category_id iu = Unset \<longrightarrow> item_category_id new = item_category_id old) \<and>
         (iu_name iu = Unset \<longrightarrow> item_name new = item_name old) \<and>
         (iu_description iu = Unset \<longrightarrow> item_description new = item_description old) \<and>
         (iu_price iu = Unset \<longrightarrow> item_price new = item_price old) \<and>
         (iu_rating iu = Unset \<longrightarrow> item_rating new = item_rating old) \<and>
         (iu_is_active iu = Unset \<longrightarrow> item_is_active new = item_is_active old)"
  proof cases
    case rejected
    with f show ?thesis by simp
  next
    case applied
    from flush_item_frame [OF f, of a now] obtain new where
      n: "find (\<lambda>i. item_id i = iid) (items (snd (flush_item old a now db))) = Some new"
        "\<forall>r. fst (flush_item old a now db) = Inr r \<longrightarrow> r = new"
        "item_id new = item_id old" "item_created_at new = item_created_at old"
        "a_category_id a = Some (item_category_id old) \<longrightarrow>
           item_category_id new = item_category_id old"
        "a_name a = Some (item_name old) \<longrightarrow> item_name new = item_name old"
        "a_description a = item_description old \<longrightarrow>
           item_description new = item_description old"
        "a_price a = Some (item_price old) \<longrightarrow> item_price new = item_price old"
        "a_rating a = item_rating old \<longrightarrow> item_rating new = item_rating old"
        "a_is_active a = item_is_active old \<longrightarrow> item_is_active new = item_is_active old"
      by blast
    show ?thesis
      unfolding applied
    proof (intro exI [of _ new] conjI impI)
      show "find (\<lambda>i. item_id i = iid) (items (snd (flush_item old a now db))) = Some new"
        by (rule n(1))
      show "\<forall>r. fst (flush_item old a now db) = Inr r \<longrightarrow> r = new" by (rule n(2))
      show "item_id new = item_id old" by (rule n(3))
      show "item_created_at new = item_created_at old" by (rule n(4))
    next
      assume "iu_category_id iu = Unset"
      then show "item_category_id new = item_category_id old" using n(5) by (simp add: a_def)
    next
      assume "iu_name iu = Unset"
      then show "item_name new = item_name old" using n(6) by (simp add: a_def)
    next
      assume "iu_description iu = Unset"
      then show "item_description new = item_description old" using n(7) by (simp add: a_def)
    next
      assume "iu_price iu = Unset"
      then show "item_price new = item_price old" using n(8) by (simp add: a_def)
    next
      assume "iu_rating iu = Unset"
      then show "item_rating new = item_rating old" using n(9) by (simp add: a_def)
    next
      assume "iu_is_active iu = Unset"
      then show "item_is_active new = item_is_active old" using n(10) by (simp add: a_def)
    qed
  qed
next
  assume f: "find (\<lambda>c. cat_id c = cid) (categories db) = Some c"
  define nm where "nm = setattr (cu_name cu) (Some (cat_name c))"
  define d where "d = setattr (cu_description cu) (cat_description c)"
  from update_category_outcome [OF f, of cu]
  consider (rejected) e where "update_category cid cu db = (Inl e, db)"
    | (applied) "update_category cid cu db = flush_category c nm d db"
    unfolding apply_category_update_def nm_def d_def by blast
  then show "\<exists>c'. find (\<lambda>c. cat_id c = cid) (categories (snd (update_category cid cu db))) = Some c' \<and>
         (\<forall>r. fst (update_category cid cu db) = Inr r \<longrightarrow> r = c') \<and>
         cat_id c' = cat_id c \<and>
         (cu_name cu = Unset \<longrightarrow> cat_name c' = cat_name c) \<and>
         (cu_description cu = Unset \<longrightarrow> cat_description c' = cat_description c)"
  proof cases
    case rejected
    with f show ?thesis by simp
  next
    case applied
    from flush_category_frame [OF f, of nm d] obtain c' where
      n: "find (\<lambda>c. cat_id c = cid) (categories (snd (flush_category c nm d db))) = Some c'"
        "\<forall>r. fst (flush_category c nm d db) = Inr r \<longrightarrow> r = c'"
        "cat_id c' = cat_id c"
        "nm = Some (cat_name c) \<longrightarrow> cat_name c' = cat_name c"
        "d = cat_description c \<longrightarrow> cat_description c' = cat_description c"
      by blast
    show ?thesis
      unfolding applied
    proof (intro exI [of _ c'] conjI impI)
      show "find (\<lambda>c. cat_id c = cid) (categories (snd (flush_category c nm d db))) = Some c'"
        by (rule n(1))
      show "\<forall>r. fst (flush_category c nm d db) = Inr r \<longrightarrow> r = c'" by (rule n(2))
      show "cat_id c' = cat_id c" by (rule n(3))
    next
      assume "cu_name cu = Unset"
      then show "cat_name c' = cat_name c" using n(4) by (simp add: nm_def)
    next
      assume "cu_description cu = Unset"
      then show "cat_description c' = cat_description c" using n(5) by (simp add: d_def)
    qed
  qed
qed


theorem update_keeps_absent_fields_witness:
  "map item_name (items (snd (update_item 1 only_description 20 x_db))) = [''X'']
   \<and> map item_price (items (snd (update_item 1 only_description 20 x_db))) = [10]
   \<and> map item_description (items (snd (update_item 1 only_description 20 x_db))) = [Some ''new'']
   \<and> map cat_name (categories (snd (update_category 1
         \<lparr>cu_name = Unset, cu_description = Given (Some ''Iced'')\<rparr> x_db))) = [''Drinks'']"
  using update_keeps_absent_fields [of 1 x_db
      "\<lparr>item_id = 1, item_category_id = 1, item_name = ''X'', item_description = Some ''old'',
        item_price = 10, item_rating = Some 4, item_is_active = Some True,
        item_created_at = 10, item_updated_at = 10\<rparr>"
      only_description 20 1
      "\<lparr>cat_id = 1, cat_name = ''Drinks'', cat_description = Some ''Cold''\<rparr>"
      "\<lparr>cu_name = Unset, cu_description = Given (Some ''Iced'')\<rparr>"]
  by (simp add: x_db_def only_description_def update_item_def apply_item_update_def
      flush_item_def attrs_of_def update_category_def apply_category_update_def
      flush_category_def Let_def)

section \<open>Null is not absence\<close>

lemma update_item_null_description:
  assumes f: "find (\<lambda>i. item_id i = iid) (items db) = Some old"
  shows "update_item iid null_description now db =
       (if item_description old = None then (Inr old, db)
        else (Inr (old\<lparr>item_description := None, item_updated_at := now\<rparr>),
              db\<lparr>items := map (\<lambda>i. if item_id i = iid
                                     then old\<lparr>item_description := None, item_updated_at := now\<rparr>
                                     else i) (items db)\<rparr>))"
proof -
  from find_SomeD [OF f] have id: "item_id old = iid" by simp
  have u: "update_item iid null_description now db =
      flush_item old ((attrs_of old)\<lparr>a_description := None\<rparr>) now db"
    by (simp add: update_item_def apply_item_update_def null_description_def f attrs_of_def)
  have eq: "(attrs_of old)\<lparr>a_description := None\<rparr> = attrs_of old \<longleftrightarrow> item_description old = None"
    by (auto simp: attrs_of_def)
  have row: "old\<lparr>item_category_id := item_category_id old, item_name := item_name old,
                 item_description := None, item_price := item_price old,
                 item_rating := item_rating old, item_is_active := item_is_active old,
                 item_updated_at := now\<rparr>
      = old\<lparr>item_description := None, item_updated_at := now\<rparr>"
    by (cases old) simp
  show ?thesis
    unfolding u flush_item_def eq
    by (simp add: attrs_of_def Let_def row id)
qed

lemma update_item_no_fields:
  assumes f: "find (\<lambda>i. item_id i = iid) (items db) = Some old"
  shows "update_item iid no_fields now db = (Inr old, db)"
  by (simp add: update_item_def apply_item_update_def no_fields_def f flush_item_def attrs_of_def)

lemma update_category_null_description:
  assumes f: "find (\<lambda>c. cat_id c = cid) (categories db) = Some c"
  shows "update_category cid \<lparr>cu_name = Unset, cu_description = Given None\<rparr> db =
       (Inr (c\<lparr>cat_description := None\<rparr>),
        db\<lparr>categories := map (\<lambda>x. if cat_id x = cid then c\<lparr>cat_description := None\<rparr> else x)
                               (categories db)\<rparr>)"
proof -
  from find_SomeD [OF f] have id: "cat_id c = cid" by simp
  have row: "c\<lparr>cat_name := cat_name c, cat_description := None\<rparr> = c\<lparr>cat_description := None\<rparr>"
    by (cases c) simp
  show ?thesis
    by (simp add: update_category_def apply_category_update_def f flush_category_def Let_def
        row id)
qed

lemma update_category_no_fields:
  assumes f: "find (\<lambda>c. cat_id c = cid) (categories db) = Some c"
  shows "fst (update_category cid \<lparr>cu_name = Unset, cu_description = Unset\<rparr> db) = Inr c"
proof -
  have row: "c\<lparr>cat_name := cat_name c, cat_description := cat_description c\<rparr> = c"
    by (cases c) simp
  show ?thesis
    by (simp add: update_category_def apply_category_update_def f flush_category_def Let_def
        row)
qed

text \<open>
  Claim C10.  A payload whose only field is \<open>description\<close> with the value null clears
  the stored description of an existing item and leaves every other column as it was,
  except that the rewritten row gets the current time as \<open>updated_at\<close>; when the
  description is already null nothing is written.  A payload with no field returns the
  item as it is.  Likewise \<open>update_category\<close> with a null description clears the
  category's description and keeps its name, and with no field returns the category.
\<close>

theorem explicit_null_description:
  "(find (\<lambda>i. item_id i = iid) (items db) = Some old \<longrightarrow>
      update_item iid null_description now db =
       (if item_description old = None then (Inr old, db)
        else (Inr (old\<lparr>item_description := None, item_updated_at := now\<rparr>),
              db\<lparr>items := map (\<lambda>i. if item_id i = iid
                                     then old\<lparr>item_description := None, item_updated_at := now\<rparr>
                                     else i) (items db)\<rparr>))
      \<and> update_item iid no_fields now db = (Inr old, db))
   \<and> (find (\<lambda>c. cat_id c = cid) (categories db) = Some c \<longrightarrow>
      update_category cid \<lparr>cu_name = Unset, cu_description = Given None\<rparr> db =
       (Inr (c\<lparr>cat_description := None\<rparr>),
        db\<lparr>categories := map (\<lambda>x. if cat_id x = cid then c\<lparr>cat_description := None\<rparr> else x)
                               (categories db)\<rparr>)
      \<and> fst (update_category cid \<lparr>cu_name = Unset, cu_description = Unset\<rparr> db) = Inr c)"
  using update_item_null_description update_item_no_fields update_category_null_description
    update_category_no_fields
  by blast

theorem explicit_null_description_witness:
  "map item_description (items (snd (update_item 1 null_description 20 x_db))) = [None]
   \<and> map item_name (items (snd (update_item 1 null_description 20 x_db))) = [''X'']
   \<and> map item_description (items (snd (update_item 1 no_fields 20 x_db))) = [Some ''old'']
   \<and> map cat_description (categories (snd (update_category 1
         \<lparr>cu_name = Unset, cu_description = Given None\<rparr> x_db))) = [None]
   \<and> fst (update_category 1 \<lparr>cu_name = Unset, cu_description = Unset\<rparr> x_db) =
       Inr \<lparr>cat_id = 1, cat_name = ''Drinks'', cat_description = Some ''Cold''\<rparr>"
  using explicit_null_description [of 1 x_db
      "\<lparr>item_id = 1, item_category_id = 1, item_name = ''X'', item_description = Some ''old'',
        item_price = 10, item_rating = Some 4, item_is_active = Some True,
        item_created_at = 10, item_updated_at = 10\<rparr>"
      20 1 "\<lparr>cat_id = 1, cat_name = ''Drinks'', cat_description = Some ''Cold''\<rparr>"]
  by (simp add: x_db_def)

section \<open>Listing items\<close>






section \<open>Toggling an item\<close>

text \<open>
  \<open>toggle_item_active\<close> of an existing item always rewrites the row: it stores
  \<open>not is_active\<close> and the current time as \<open>updated_at\<close>.  For a missing id it answers 404.
  When \<open>is_active\<close> holds a boolean, two toggles in succession bring it back.
\<close>

lemma toggle_item_active_flips:
  assumes f: "find (\<lambda>i. item_id i = iid) (items db) = Some old"
  shows "toggle_item_active iid now db =
      (Inr (old\<lparr>item_is_active := Some (py_not (item_is_active old)), item_updated_at := now\<rparr>),
       db\<lparr>items := map (\<lambda>i. if item_id i = iid
                then old\<lparr>item_is_active := Some (py_not (item_is_active old)),
                         item_updated_at := now\<rparr>
                else i) (items db)\<rparr>)"
proof -
  from find_SomeD [OF f] have id: "item_id old = iid" by simp
  have ne: "(attrs_of old)\<lparr>a_is_active := Some (py_not (item_is_active old))\<rparr> \<noteq> attrs_of old"
    by (cases "item_is_active old") (auto simp: attrs_of_def dest: arg_cong [where f = a_is_active])
  have row: "old\<lparr>item_category_id := item_category_id old, item_name := item_name old,
                 item_description := item_description old, item_price := item_price old,
                 item_rating := item_rating old,
                 item_is_active := Some (py_not (item_is_active old)),
                 item_updated_at := now\<rparr>
      = old\<lparr>item_is_active := Some (py_not (item_is_active old)), item_updated_at := now\<rparr>"
    by (cases old) simp
  have "toggle_item_active iid now db =
      flush_item old ((attrs_of old)\<lparr>a_is_active := Some (py_not (item_is_active old))\<rparr>) now db"
    by (simp add: toggle_item_active_def f)
  also have "\<dots> =
      (Inr (old\<lparr>item_is_active := Some (py_not (item_is_active old)), item_updated_at := now\<rparr>),
       db\<lparr>items := map (\<lambda>i. if item_id i = iid
                then old\<lparr>item_is_active := Some (py_not (item_is_active old)),
                         item_updated_at := now\<rparr>
                else i) (items db)\<rparr>)"
    unfolding flush_item_def using ne by (simp add: attrs_of_def Let_def row id)
  finally show ?thesis .
qed

lemma toggle_item_active_missing:
  assumes "\<forall>i \<in> set (items db). item_id i \<noteq> iid"
  shows "toggle_item_active iid now db =
      (Inl (HTTPException HTTP_404_NOT_FOUND (Item_not_found iid)), db)"
proof -
  from assms have "find (\<lambda>i. item_id i = iid) (items db) = None"
    by (intro find_none) simp
  then show ?thesis by (simp add: toggle_item_active_def)
qed

lemma toggle_item_active_twice:
  assumes f: "find (\<lambda>i. item_id i = iid) (items db) = Some old"
    and b: "item_is_active old = Some b"
  shows "fst (toggle_item_active iid t2 (snd (toggle_item_active iid t1 db))) =
      Inr (old\<lparr>item_is_active := Some b, item_updated_at := t2\<rparr>)"
proof -
  define mid where "mid = old\<lparr>item_is_active := Some (\<not> b), item_updated_at := t1\<rparr>"
  from find_SomeD [OF f] have id: "item_id old = iid" by simp
  have one: "toggle_item_active iid t1 db =
      (Inr mid, db\<lparr>items := map (\<lambda>i. if item_id i = iid then mid else i) (items db)\<rparr>)"
    using toggle_item_active_flips [OF f, of t1] by (simp add: b mid_def)
  have "item_id mid = iid" by (simp add: mid_def id)
  from find_replace [OF f this]
  have f2: "find (\<lambda>i. item_id i = iid) (items (snd (toggle_item_active iid t1 db))) = Some mid"
    by (simp add: one)
  show ?thesis
    using toggle_item_active_flips [OF f2, of t2] by (simp add: mid_def)
qed

text \<open>
  Claim C7 fails on a row whose \<open>is_active\<close> is NULL.  \<open>ItemUpdate\<close> admits a null
  \<open>is_active\<close>, the column is nullable, so \<open>update_item\<close> stores NULL in the row of Cola.
  The first toggle then stores \<open>not None\<close>, which is true, and the second stores false:
  after two toggles \<open>is_active\<close> is false, not the NULL it was.
\<close>

theorem toggle_twice_after_null_is_active:
  "ItemUpdate_valid null_is_active
   \<and> map item_is_active (items menu_db) = [Some True]
   \<and> map item_is_active (items nulled_db) = [None]
   \<and> map item_is_active (items (snd (toggle_item_active 1 30 nulled_db))) = [Some True]
   \<and> map item_is_active
        (items (snd (toggle_item_active 1 40 (snd (toggle_item_active 1 30 nulled_db)))))
      = [Some False]"
  by (simp add: ItemUpdate_valid_def null_is_active_def nulled_db_def menu_db_def
      update_item_def apply_item_update_def toggle_item_active_def flush_item_def
      attrs_of_def Let_def)

section \<open>Rounding to binary64\<close>

lemma round_half_even_eqI:
  assumes "\<bar>x - of_int n\<bar> < 1 / 2"
  shows "round_half_even x = n"
proof (cases "of_int n \<le> x")
  case True
  with assms have "x < of_int n + 1" by linarith
  with True have f: "\<lfloor>x\<rfloor> = n" by (simp add: floor_unique)
  from assms True have "x - of_int n < 1 / 2" by linarith
  with f show ?thesis by (simp add: round_half_even_def)
next
  case False
  have c: "(of_int (n - 1) :: rat) = of_int n - 1" by simp
  from assms False have lo: "of_int (n - 1) \<le> x" unfolding c by linarith
  from False have "x < of_int (n - 1) + 1" unfolding c by linarith
  with lo have f: "\<lfloor>x\<rfloor> = n - 1" by (rule floor_unique)
  from assms False have "1 / 2 < x - of_int (n - 1)" unfolding c by linarith
  with f show ?thesis by (simp add: round_half_even_def)
qed

lemma floorlog2_eqI:
  assumes "2 ^ e \<le> n" and "n < 2 ^ Suc e"
  shows "floorlog 2 n = Suc e"
proof -
  have "(0::nat) < 2 ^ e" by simp
  with assms(1) have pos: "0 < n" by linarith
  define f where "f = floorlog 2 n"
  from floorlog_bounds [of n 2] pos have b: "2 ^ (f - 1) \<le> n" "n < 2 ^ f"
    by (simp_all add: f_def)
  from assms(1) b(2) have "(2::nat) ^ e < 2 ^ f" by linarith
  then have "e < f" by (rule power_less_imp_less_exp [rotated]) simp
  moreover from b(1) assms(2) have "(2::nat) ^ (f - 1) < 2 ^ Suc e" by linarith
  then have "f - 1 < Suc e" by (rule power_less_imp_less_exp [rotated]) simp
  ultimately show ?thesis unfolding f_def by linarith
qed

lemma binade_ge1:
  assumes lo: "2 ^ k \<le> a" and hi: "a < 2 ^ Suc k"
  shows "binade a = int k"
proof -
  have "(1::rat) \<le> 2 ^ k" by (rule one_le_power) simp
  with lo have one: "1 \<le> a" by linarith
  define z where "z = \<lfloor>a\<rfloor>"
  have "(of_int (2 ^ k) :: rat) \<le> a" using lo by simp
  then have l: "2 ^ k \<le> z" unfolding z_def by (simp only: le_floor_iff)
  have "a < of_int (2 ^ Suc k)" using hi by simp
  then have h: "z < 2 ^ Suc k" unfolding z_def by (simp only: floor_less_iff)
  have "(0::int) < 2 ^ k" by simp
  with l have z0: "0 \<le> z" by linarith
  have n1: "(2::nat) ^ k \<le> nat z" using l z0 by (simp add: le_nat_iff)
  have n2: "nat z < 2 ^ Suc k" using h z0 by (simp add: nat_less_iff)
  have "floorlog 2 (nat z) = Suc k" using n1 n2 by (rule floorlog2_eqI)
  with one show ?thesis by (simp add: binade_def z_def)
qed


lemma binade_lt1:
  assumes lo: "1 / 2 ^ Suc k \<le> a" and hi: "a < 1 / 2 ^ k"
  shows "binade a = - int (Suc k)"
proof -
  have P: "(0::rat) < 2 ^ Suc k" and Q: "(0::rat) < 2 ^ k" by simp_all
  from P have "(0::rat) < 1 / 2 ^ Suc k" by simp
  with lo have pos: "0 < a" by linarith
  have "(1::rat) \<le> 2 ^ k" by (rule one_le_power) simp
  then have "1 / 2 ^ k \<le> (1::rat)" using Q by (simp add: divide_le_eq)
  with hi have small: "\<not> 1 \<le> a" by linarith
  define N where "N = \<lceil>1 / a\<rceil>"
  from lo P have "1 \<le> a * 2 ^ Suc k" by (simp only: pos_divide_le_eq)
  with pos have "1 / a \<le> 2 ^ Suc k" by (simp add: pos_divide_le_eq mult.commute)
  then have "1 / a \<le> of_int (2 ^ Suc k)" by simp
  then have up: "N \<le> 2 ^ Suc k" unfolding N_def by (simp only: ceiling_le_iff)
  from hi Q have "a * 2 ^ k < 1" by (simp only: pos_less_divide_eq)
  with pos have "2 ^ k < 1 / a" by (simp add: pos_less_divide_eq mult.commute)
  then have "of_int (2 ^ k) < 1 / a" by simp
  then have dn: "2 ^ k < N" unfolding N_def by (simp only: less_ceiling_iff)
  have "(0::int) < 2 ^ k" by simp
  with dn have z0: "0 \<le> N - 1" by linarith
  from dn have l: "2 ^ k \<le> N - 1" by linarith
  from up have h: "N - 1 < 2 ^ Suc k" by linarith
  have n1: "(2::nat) ^ k \<le> nat (N - 1)" using l z0 by (simp add: le_nat_iff)
  have n2: "nat (N - 1) < 2 ^ Suc k" using h z0 by (simp add: nat_less_iff)
  have "floorlog 2 (nat (N - 1)) = Suc k" using n1 n2 by (rule floorlog2_eqI)
  with small show ?thesis by (simp add: binade_def N_def)
qed

lemma to_binary64_finite:
  assumes q: "0 < q" and b: "binade q = e" and e: "- 1022 \<le> e"
    and u: "power_int 2 (e - 52) = u"
    and m: "\<bar>q / u - of_int m\<bar> < 1 / 2" and r: "of_int m * u < 2 ^ 1024"
  shows "to_binary64 q = Finite (of_int m * u)"
proof -
  from q have a: "\<bar>q\<bar> = q" "q \<noteq> 0" by simp_all
  from e have mx: "max e (- 1022) = e" by simp
  from m have rh: "round_half_even (q / u) = m" by (rule round_half_even_eqI)
  from r have nr: "\<not> 2 ^ 1024 \<le> of_int m * u" by simp
  show ?thesis
    unfolding to_binary64_def Let_def a(1) b mx u rh
    using a(2) q nr by simp
qed


lemma ulp_binade3: "power_int (2::rat) (3 - 52) = 1 / 562949953421312"
  by (simp add: power_int_def power_one_over)

lemma binary64_12_99:
  "to_binary64 (1299 / 100) = Finite (7312719894942843 / 562949953421312)"
proof -
  have b: "binade (1299 / 100) = 3"
    using binade_ge1 [of 3 "1299 / 100"] by simp
  have "to_binary64 (1299 / 100) = Finite (of_int 7312719894942843 * (1 / 562949953421312))"
    by (rule to_binary64_finite [OF _ b _ ulp_binade3]) simp_all
  then show ?thesis by simp
qed

lemma binary64_12_999:
  "to_binary64 (12999 / 1000) = Finite (7317786444523635 / 562949953421312)"
proof -
  have b: "binade (12999 / 1000) = 3"
    using binade_ge1 [of 3 "12999 / 1000"] by simp
  have "to_binary64 (12999 / 1000) = Finite (of_int 7317786444523635 * (1 / 562949953421312))"
    by (rule to_binary64_finite [OF _ b _ ulp_binade3]) simp_all
  then show ?thesis by simp
qed

lemma binary64_12_9:
  "to_binary64 (129 / 10) = Finite (7262054399134925 / 562949953421312)"
proof -
  have b: "binade (129 / 10) = 3"
    using binade_ge1 [of 3 "129 / 10"] by simp
  have "to_binary64 (129 / 10) = Finite (of_int 7262054399134925 * (1 / 562949953421312))"
    by (rule to_binary64_finite [OF _ b _ ulp_binade3]) simp_all
  then show ?thesis by simp
qed

lemma binary64_13: "to_binary64 13 = Finite 13"
proof -
  have b: "binade 13 = 3"
    using binade_ge1 [of 3 13] by simp
  have "to_binary64 13 = Finite (of_int 7318349394477056 * (1 / 562949953421312))"
    by (rule to_binary64_finite [OF _ b _ ulp_binade3]) simp_all
  then show ?thesis by simp
qed

lemma round2_12_99:
  "py_round2 (Finite (7312719894942843 / 562949953421312)) =
     Finite (7312719894942843 / 562949953421312)"
proof -
  have "round_half_even (7312719894942843 / 562949953421312 * 100) = 1299"
    by (rule round_half_even_eqI) simp
  then show ?thesis using binary64_12_99 by simp
qed

lemma round2_12_9:
  "py_round2 (Finite (7262054399134925 / 562949953421312)) =
     Finite (7262054399134925 / 562949953421312)"
proof -
  have "round_half_even (7262054399134925 / 562949953421312 * 100) = 1290"
    by (rule round_half_even_eqI) simp
  then show ?thesis using binary64_12_9 by simp
qed

lemma round2_12_999:
  "py_round2 (Finite (7317786444523635 / 562949953421312)) = Finite 13"
proof -
  have "round_half_even (7317786444523635 / 562949953421312 * 100) = 1300"
    by (rule round_half_even_eqI) simp
  then show ?thesis using binary64_13 by simp
qed




section \<open>Validating a price\<close>

text \<open>The prices of the specification's examples, as the floats of their literals.\<close>

lemma ItemBase_price_12_99:
  "ItemBase_price (to_binary64 (1299 / 100)) = Inr (to_binary64 (1299 / 100))"
  by (simp add: ItemBase_price_def validate_price_def binary64_12_99 round2_12_99
      del: py_round2.simps)

lemma ItemBase_price_12_9:
  "ItemBase_price (to_binary64 (129 / 10)) = Inr (to_binary64 (129 / 10))"
  by (simp add: ItemBase_price_def validate_price_def binary64_12_9 round2_12_9
      del: py_round2.simps)

lemma ItemBase_price_12_999:
  "ItemBase_price (to_binary64 (12999 / 1000)) = Inl ValidationError"
  by (simp add: ItemBase_price_def validate_price_def binary64_12_999 round2_12_999
      del: py_round2.simps)

lemma ItemBase_price_not_positive:
  "\<not> gt_zero v \<Longrightarrow> ItemBase_price v = Inl ValidationError"
  by (simp add: ItemBase_price_def)

text \<open>A price that passes is returned as it is, is positive, and is two-decimal or infinite.\<close>

lemma ItemBase_price_accepted:
  assumes "ItemBase_price v = Inr w"
  shows "w = v \<and> gt_zero v \<and> (v = PosInf \<or> two_decimal v)"
proof (cases v)
  case (Finite q)
  from assms have g: "gt_zero v" and r: "\<not> float_ne (py_round2 v) v" and w: "w = v"
    by (auto simp: ItemBase_price_def validate_price_def split: if_splits)
  from r Finite have "to_binary64 (of_int (round_half_even (q * 100)) / 100) = Finite q"
    by (cases "to_binary64 (of_int (round_half_even (q * 100)) / 100)") simp_all
  then have "two_decimal v" unfolding Finite two_decimal.simps by (rule exI)
  with g w show ?thesis by simp
next
  case PosInf
  with assms show ?thesis
    by (auto simp: ItemBase_price_def validate_price_def split: if_splits)
next
  case NegInf
  with assms show ?thesis by (simp add: ItemBase_price_def)
next
  case NaN
  with assms show ?thesis by (simp add: ItemBase_price_def)
qed


end
